theory Spec2Isabelle
  imports Main "HOL-Library.Sublist"
begin

section \<open>The harvesting pipeline of scrapper.py\<close>

text \<open>
  A shallow embedding of \<^verbatim>\<open>src/scrapper.py\<close>: the functions \<^verbatim>\<open>get_paper_links\<close>,
  \<^verbatim>\<open>fetch_metadata\<close>, \<^verbatim>\<open>download_pdf\<close>, \<^verbatim>\<open>start_scraping\<close> and \<^verbatim>\<open>scrape_papers\<close>.

  The module's globals, the files it writes and the widgets it touches are one record
  that every function takes and returns. The outside world (the archive's answers to
  HTTP GET, and which paths cannot be opened for writing) is a second record, \<open>env\<close>,
  that the functions only read. Python exceptions are values of the type \<open>exc\<close>.

  What is abstracted:
  \<^item> BeautifulSoup: the parser either rejects the text of a response with an exception
    (which is no RequestException), or gives a parsed page, kept as the record \<open>soup\<close>
    of exactly the views the selectors of the program read (the \<^verbatim>\<open>href\<close> of every
    anchor in document order, the text of the first \<^verbatim>\<open>h4\<close>, and for every element
    matching \<^verbatim>\<open>h4 + p\<close> the texts of its anchors). The selectors themselves are
    computed on these views.
  \<^item> A character of a \<open>string\<close> is a code point below 256; text with other code points
    is outside the model.
  \<^item> The CSV file is kept at the level of rows (a header line or a data row), not bytes.
  \<^item> Log texts and the text of the error dialog are constructors carrying the values
    the f-string interpolates; an interpolated exception is the exception itself.
  \<^item> The worker pool is run in one fixed schedule: every submitted task runs to its end
    at the moment it is submitted, the next paper's metadata is fetched after that.
    The pool's context manager waits for all tasks, then the first stored exception is
    re-raised by \<^verbatim>\<open>future.result()\<close>.
  \<^item> \<^verbatim>\<open>os.path.join\<close> joins with \<^verbatim>\<open>/\<close>; the text of the two entry widgets is already
    converted by \<^verbatim>\<open>int()\<close>.
\<close>

subsection \<open>Constants (lines 14-17, and the literal prefix of lines 47 and 94)\<close>

definition BASE_URL :: string where
  "BASE_URL = ''https://papers.nips.cc/paper_files/paper''"

definition SITE :: string where
  "SITE = ''https://papers.nips.cc''"

definition OUTPUT_DIR :: string where
  "OUTPUT_DIR = ''D:/scraped-pdfs''"

definition path_join :: "string \<Rightarrow> string \<Rightarrow> string" where
  "path_join d f = d @ ''/'' @ f"

definition METADATA_FILE :: string where
  "METADATA_FILE = path_join OUTPUT_DIR ''metadata.csv''"

subsection \<open>Strings: \<^verbatim>\<open>str(int)\<close>, \<^verbatim>\<open>strip\<close>, \<^verbatim>\<open>join\<close>, \<^verbatim>\<open>split("/")[-1]\<close>\<close>

definition digit_char :: "nat \<Rightarrow> char" where
  "digit_char d = char_of (48 + d)"

function str_nat :: "nat \<Rightarrow> string" where
  "str_nat n = (if n < 10 then [digit_char n] else str_nat (n div 10) @ [digit_char (n mod 10)])"
  by pat_completeness auto
termination
  by (relation "measure (\<lambda>n. n)") auto

declare str_nat.simps [simp del]

definition str_int :: "int \<Rightarrow> string" where
  "str_int i = (if i < 0 then CHR ''-'' # str_nat (nat (- i)) else str_nat (nat i))"

text \<open>
  The code points below 256 that \<^verbatim>\<open>str.strip()\<close> removes: those for which
  \<^verbatim>\<open>str.isspace\<close> holds.
\<close>

definition is_space :: "char \<Rightarrow> bool" where
  "is_space c = (c \<in> set ([CHR '' '', CHR 0x09, CHR 0x0A, CHR 0x0B, CHR 0x0C, CHR 0x0D,
                            CHR 0x1C, CHR 0x1D, CHR 0x1E, CHR 0x1F, CHR 0x85, CHR 0xA0]))"

definition strip :: "string \<Rightarrow> string" where
  "strip s = rev (dropWhile is_space (rev (dropWhile is_space s)))"

fun join :: "string \<Rightarrow> string list \<Rightarrow> string" where
  "join sep [] = []"
| "join sep [x] = x"
| "join sep (x # y # ys) = x @ sep @ join sep (y # ys)"

definition last_segment :: "string \<Rightarrow> string" where
  "last_segment s = rev (takeWhile (\<lambda>c. c \<noteq> CHR ''/'') (rev s))"

subsection \<open>The outside world\<close>

text \<open>
  A RequestException is either raised by \<^verbatim>\<open>requests.get\<close> or by the stream of the
  body (a failed connection, a timeout, a broken transfer; \<open>Transport\<close> with its text) or
  it is the HTTPError that \<^verbatim>\<open>raise_for_status\<close> raises for a status.
  \<open>ParserError\<close> is what the parser raises on a text it rejects; like OSError it is no
  RequestException.
\<close>

datatype request_error = Transport string | HTTPError nat

datatype exc = RequestException request_error | OSError string | ParserError string

record soup =
  anchor_hrefs :: "string list"
  h4_text :: "string option"
  h4_p_anchors :: "string list list"

text \<open>
  A response: its status, what the parser makes of its text, and its body as a stream.
  \<open>parse_error = Some pe\<close>: the parser rejects the text with an exception of text \<open>pe\<close>;
  otherwise \<open>soup_of\<close> is the parsed page. \<open>content\<close> is what the stream delivers;
  \<open>stream_error\<close> is the error that ends the stream early, if any (then \<open>content\<close> is
  the part delivered before it).
\<close>

record response =
  status_code :: nat
  parse_error :: "string option"
  soup_of :: soup
  content :: string
  stream_error :: "string option"

text \<open>
  \<open>http u = Inl err\<close>: \<^verbatim>\<open>requests.get(u)\<close> raises the RequestException \<open>err\<close>.
  \<open>open_fails p = Some e\<close>: opening \<open>p\<close> for writing raises OSError with text \<open>e\<close>.
\<close>

record env =
  http :: "string \<Rightarrow> request_error + response"
  open_fails :: "string \<Rightarrow> string option"

subsection \<open>The program state\<close>

datatype level = INFO | ERROR

datatype msg =
    FetchingLinks string
  | FoundPapers nat int
  | ErrorFetchingLinks request_error
  | ErrorFetchingMetadata string request_error
  | NoPdfFound string
  | Downloading string
  | Saved string
  | DownloadedCount int int
  | ErrorDownloading string request_error

text \<open>
  The one dialog of the program, \<^verbatim>\<open>messagebox.showerror\<close> with the title "Error" and
  the text of line 132 about the invalid year range.
\<close>

datatype dialog = ShowErrorInvalidYearRange

record metadata =
  title :: string
  authors :: string
  url :: string
  pdf_path :: "string option"

datatype csv_line = Header | Row string string string string

text \<open>
  \<open>total_papers\<close>, \<open>downloaded_papers\<close>, \<open>is_scraping\<close> and \<open>log_queue\<close> are the globals of
  lines 25-28. \<open>logging\<close> is the output of the logging module. \<open>files\<close> is the content of
  the files under the output directory other than the metadata file, \<open>sink\<close> the metadata
  file (\<open>None\<close>: it does not exist). \<open>requests\<close> records every GET in order.
  \<open>dialogs\<close>, \<open>log_area\<close>, \<open>progress_bar\<close> and \<open>start_button_enabled\<close> are the widgets;
  \<open>ui_updates\<close> counts the calls \<^verbatim>\<open>app.after(0, update_progress)\<close>.
\<close>

record state =
  total_papers :: int
  downloaded_papers :: int
  is_scraping :: bool
  log_queue :: "msg list"
  logging :: "(level \<times> msg) list"
  files :: "string \<rightharpoonup> string"
  sink :: "csv_line list option"
  requests :: "string list"
  dialogs :: "dialog list"
  log_area :: "msg list"
  progress_bar :: int
  start_button_enabled :: bool
  ui_updates :: nat

definition log_put :: "msg \<Rightarrow> state \<Rightarrow> state" where
  "log_put m s = s\<lparr>log_queue := log_queue s @ [m]\<rparr>"

definition logging_info :: "msg \<Rightarrow> state \<Rightarrow> state" where
  "logging_info m s = s\<lparr>logging := logging s @ [(INFO, m)]\<rparr>"

definition logging_error :: "msg \<Rightarrow> state \<Rightarrow> state" where
  "logging_error m s = s\<lparr>logging := logging s @ [(ERROR, m)]\<rparr>"

subsection \<open>HTTP\<close>

definition requests_get :: "env \<Rightarrow> string \<Rightarrow> state \<Rightarrow> (request_error + response) \<times> state" where
  "requests_get e u s = (http e u, s\<lparr>requests := requests s @ [u]\<rparr>)"

text \<open>\<^verbatim>\<open>raise_for_status\<close> raises HTTPError, a RequestException, on a 4xx or 5xx status.\<close>

definition raise_for_status :: "response \<Rightarrow> request_error + response" where
  "raise_for_status r =
     (if 400 \<le> status_code r \<and> status_code r < 600
      then Inl (HTTPError (status_code r)) else Inr r)"

text \<open>The two lines \<^verbatim>\<open>response = requests.get(u); response.raise_for_status()\<close>.\<close>

definition get_checked :: "env \<Rightarrow> string \<Rightarrow> state \<Rightarrow> (request_error + response) \<times> state" where
  "get_checked e u s =
     (case requests_get e u s of
        (Inl err, s') \<Rightarrow> (Inl err, s')
      | (Inr r, s') \<Rightarrow> (raise_for_status r, s'))"

text \<open>\<^verbatim>\<open>iter_content(chunk_size=n)\<close>: the body in pieces of at most \<open>n\<close> bytes.\<close>

function iter_content :: "nat \<Rightarrow> string \<Rightarrow> string list" where
  "iter_content n bs =
     (if n = 0 \<or> bs = [] then [] else take n bs # iter_content n (drop n bs))"
  by pat_completeness auto
termination
  by (relation "measure (\<lambda>(n, bs). length bs)") auto

declare iter_content.simps [simp del]

text \<open>
  \<^verbatim>\<open>BeautifulSoup(response.text, "html.parser")\<close>: the parsed page, or the exception
  of the parser.
\<close>

definition BeautifulSoup :: "response \<Rightarrow> exc + soup" where
  "BeautifulSoup r =
     (case parse_error r of Some pe \<Rightarrow> Inl (ParserError pe) | None \<Rightarrow> Inr (soup_of r))"

subsection \<open>\<^verbatim>\<open>get_paper_links\<close> (lines 34-53)\<close>

definition listing_url :: "int \<Rightarrow> string" where
  "listing_url year = BASE_URL @ ''/'' @ str_int year"

text \<open>
  The result is \<open>Inr\<close> the list returned, or \<open>Inl\<close> the exception that leaves the
  function: the handler of line 51 catches RequestException only, so what the parser
  raises at line 42 leaves it.
\<close>

definition get_paper_links :: "env \<Rightarrow> int \<Rightarrow> state \<Rightarrow> (exc + string list) \<times> state" where
  "get_paper_links e year s =
     (let s1 = logging_info (FetchingLinks (listing_url year)) s
      in case get_checked e (listing_url year) s1 of
           (Inl err, s2) \<Rightarrow> (Inr [], logging_error (ErrorFetchingLinks err) s2)
         | (Inr r, s2) \<Rightarrow>
             (case BeautifulSoup r of
                Inl x \<Rightarrow> (Inl x, s2)
              | Inr sp \<Rightarrow>
                  (let paper_links =
                         map (\<lambda>h. SITE @ h)
                           (filter (sublist ''-Abstract.html'') (anchor_hrefs sp))
                   in (Inr paper_links,
                       logging_info (FoundPapers (length paper_links) year) s2))))"

subsection \<open>\<^verbatim>\<open>fetch_metadata\<close> (lines 55-78)\<close>

definition extract_title :: "soup \<Rightarrow> string" where
  "extract_title sp = (case h4_text sp of Some t \<Rightarrow> strip t | None \<Rightarrow> ''No Title'')"

definition extract_authors :: "soup \<Rightarrow> string list" where
  "extract_authors sp = (case h4_p_anchors sp of [] \<Rightarrow> [] | p # _ \<Rightarrow> map strip p)"

text \<open>
  The result is \<open>Inr\<close> the value returned (\<open>None\<close> or the metadata), or \<open>Inl\<close> the
  exception that leaves the function: the one the parser raises at line 60.
\<close>

definition fetch_metadata ::
  "env \<Rightarrow> string \<Rightarrow> state \<Rightarrow> (exc + metadata option) \<times> state" where
  "fetch_metadata e paper_url s =
     (case get_checked e paper_url s of
        (Inl err, s1) \<Rightarrow>
          (Inr None, logging_error (ErrorFetchingMetadata paper_url err) s1)
      | (Inr r, s1) \<Rightarrow>
          (case BeautifulSoup r of
             Inl x \<Rightarrow> (Inl x, s1)
           | Inr sp \<Rightarrow>
               (Inr (Some \<lparr>title = extract_title sp,
                           authors = join '', '' (extract_authors sp),
                           url = paper_url,
                           pdf_path = None\<rparr>), s1)))"

subsection \<open>\<^verbatim>\<open>download_pdf\<close> (lines 80-121)\<close>

text \<open>
  The result of a call that returns no value: \<open>None\<close> when it returns, \<open>Some x\<close> when
  the exception \<open>x\<close> leaves it.
\<close>

type_synonym completion = "exc option"

definition sink_lines :: "state \<Rightarrow> csv_line list" where
  "sink_lines s = (case sink s of None \<Rightarrow> [] | Some ls \<Rightarrow> ls)"

definition row_of :: "metadata \<Rightarrow> csv_line" where
  "row_of m = Row (title m) (authors m) (url m) (case pdf_path m of None \<Rightarrow> [] | Some p \<Rightarrow> p)"

text \<open>
  Lines 109-113: the metadata file is opened for appending (created when absent), the
  header is written when the position is 0, that is when the file is empty, then the row.
\<close>

definition append_row :: "env \<Rightarrow> metadata \<Rightarrow> state \<Rightarrow> completion \<times> state" where
  "append_row e m s =
     (case open_fails e METADATA_FILE of
        Some oe \<Rightarrow> (Some (OSError oe), s)
      | None \<Rightarrow>
          (None, s\<lparr>sink := Some (sink_lines s
                                  @ (if sink_lines s = [] then [Header] else [])
                                  @ [row_of m])\<rparr>))"

text \<open>
  Lines 100-103: the asset is requested (its status is not looked at), the file is
  opened for writing, which truncates it, and the chunks of the stream are written.
  The result is \<open>Inl\<close> the exception raised, or \<open>Inr ()\<close>.
\<close>

definition stream_to_file :: "env \<Rightarrow> string \<Rightarrow> string \<Rightarrow> state \<Rightarrow> (exc + unit) \<times> state" where
  "stream_to_file e pdf_url path s =
     (case requests_get e pdf_url s of
        (Inl err, s1) \<Rightarrow> (Inl (RequestException err), s1)
      | (Inr pdf_response, s1) \<Rightarrow>
          (case open_fails e path of
             Some oe \<Rightarrow> (Inl (OSError oe), s1)
           | None \<Rightarrow>
               (let s2 = s1\<lparr>files := (files s1)(path \<mapsto>
                               concat (iter_content 1024 (content pdf_response)))\<rparr>
                in case stream_error pdf_response of
                     Some err \<Rightarrow> (Inl (RequestException (Transport err)), s2)
                   | None \<Rightarrow> (Inr (), s2))))"

text \<open>Lines 105-118, after the file is written.\<close>

definition record_download :: "env \<Rightarrow> string \<Rightarrow> metadata \<Rightarrow> state \<Rightarrow> completion \<times> state" where
  "record_download e path m s =
     (let s1 = log_put (Saved path) s in
      case append_row e (m\<lparr>pdf_path := Some path\<rparr>) s1 of
        (Some x, s2) \<Rightarrow> (Some x, s2)
      | (None, s2) \<Rightarrow>
          (let s3 = s2\<lparr>downloaded_papers := downloaded_papers s2 + 1\<rparr>;
               s4 = log_put (DownloadedCount (downloaded_papers s3) (total_papers s3)) s3
           in (None, s4\<lparr>ui_updates := ui_updates s4 + 1\<rparr>)))"

text \<open>
  The handler of line 120 catches RequestException only: it logs and the function
  returns. Any other exception leaves the function.
\<close>

definition handle_request_exception :: "string \<Rightarrow> exc \<Rightarrow> state \<Rightarrow> completion \<times> state" where
  "handle_request_exception paper_url x s =
     (case x of
        RequestException err \<Rightarrow> (None, log_put (ErrorDownloading paper_url err) s)
      | OSError oe \<Rightarrow> (Some (OSError oe), s)
      | ParserError pe \<Rightarrow> (Some (ParserError pe), s))"

definition download_pdf :: "env \<Rightarrow> string \<Rightarrow> metadata \<Rightarrow> state \<Rightarrow> completion \<times> state" where
  "download_pdf e paper_url m s =
     (case get_checked e paper_url s of
        (Inl err, s1) \<Rightarrow> handle_request_exception paper_url (RequestException err) s1
      | (Inr r, s1) \<Rightarrow>
          (case BeautifulSoup r of
             Inl x \<Rightarrow> handle_request_exception paper_url x s1
           | Inr sp \<Rightarrow>
               (case find (suffix ''.pdf'') (anchor_hrefs sp) of
                  None \<Rightarrow> (None, log_put (NoPdfFound paper_url) s1)
                | Some href \<Rightarrow>
                    (let pdf_url = SITE @ href;
                         pdf_name = last_segment pdf_url;
                         path = path_join OUTPUT_DIR pdf_name;
                         s2 = log_put (Downloading pdf_name) s1
                     in case stream_to_file e pdf_url path s2 of
                          (Inl x, s3) \<Rightarrow> handle_request_exception paper_url x s3
                        | (Inr u, s3) \<Rightarrow>
                            (case record_download e path m s3 of
                               (Some x, s4) \<Rightarrow> handle_request_exception paper_url x s4
                             | (None, s4) \<Rightarrow> (None, s4))))))"

subsection \<open>\<^verbatim>\<open>scrape_papers\<close> (lines 153-176)\<close>

text \<open>
  Lines 165-168: for every link the metadata is fetched, and when there is one the
  download is submitted to the pool. The result is \<open>Inr\<close> the completions of the
  submitted tasks, or \<open>Inl\<close> the exception that \<^verbatim>\<open>fetch_metadata\<close> raised in the
  submitting thread: it ends the loop, and the futures are not looked at.
\<close>

fun submit_all :: "env \<Rightarrow> string list \<Rightarrow> state \<Rightarrow> (exc + completion list) \<times> state" where
  "submit_all e [] s = (Inr [], s)"
| "submit_all e (paper_url # rest) s =
     (case fetch_metadata e paper_url s of
        (Inl x, s1) \<Rightarrow> (Inl x, s1)
      | (Inr None, s1) \<Rightarrow> submit_all e rest s1
      | (Inr (Some m), s1) \<Rightarrow>
          (case download_pdf e paper_url m s1 of
             (c, s2) \<Rightarrow>
               (case submit_all e rest s2 of
                  (Inl x, s3) \<Rightarrow> (Inl x, s3)
                | (Inr cs, s3) \<Rightarrow> (Inr (c # cs), s3))))"

text \<open>Lines 171-172: \<^verbatim>\<open>future.result()\<close> re-raises the exception stored in a future.\<close>

fun first_raised :: "completion list \<Rightarrow> completion" where
  "first_raised [] = None"
| "first_raised (None # cs) = first_raised cs"
| "first_raised (Some x # cs) = Some x"

fun scrape_years :: "env \<Rightarrow> int list \<Rightarrow> state \<Rightarrow> completion \<times> state" where
  "scrape_years e [] s = (None, s)"
| "scrape_years e (year # years) s =
     (case get_paper_links e year s of
        (Inl x, s1) \<Rightarrow> (Some x, s1)
      | (Inr paper_links, s1) \<Rightarrow>
          (let s2 = s1\<lparr>total_papers := total_papers s1 + int (length paper_links)\<rparr> in
           case submit_all e paper_links s2 of
             (Inl x, s3) \<Rightarrow> (Some x, s3)
           | (Inr cs, s3) \<Rightarrow>
               (case first_raised cs of
                  Some x \<Rightarrow> (Some x, s3)
                | None \<Rightarrow> scrape_years e years s3)))"

definition scrape_papers :: "env \<Rightarrow> int \<Rightarrow> int \<Rightarrow> state \<Rightarrow> completion \<times> state" where
  "scrape_papers e start_year end_year s =
     (case scrape_years e [start_year..end_year] s of
        (Some x, s1) \<Rightarrow> (Some x, s1)
      | (None, s1) \<Rightarrow> (None, s1\<lparr>is_scraping := False, start_button_enabled := True\<rparr>))"

subsection \<open>\<^verbatim>\<open>start_scraping\<close> (lines 123-151)\<close>

datatype outcome = Rejected | Raised exc | Started | Finished

definition invalid_range_dialog :: dialog where
  "invalid_range_dialog = ShowErrorInvalidYearRange"

text \<open>Lines 136-139: the metadata file is created with its header when it does not exist.\<close>

definition init_sink :: "env \<Rightarrow> state \<Rightarrow> completion \<times> state" where
  "init_sink e s =
     (case sink s of
        Some ls \<Rightarrow> (None, s)
      | None \<Rightarrow>
          (case open_fails e METADATA_FILE of
             Some oe \<Rightarrow> (Some (OSError oe), s)
           | None \<Rightarrow> (None, s\<lparr>sink := Some [Header]\<rparr>)))"

text \<open>
  Lines 125-148: what the button's handler does itself, up to the start of the thread.
  \<open>Started\<close> comes with the state that the thread of \<^verbatim>\<open>scrape_papers\<close> starts from.
\<close>

definition start_scraping_main :: "env \<Rightarrow> int \<Rightarrow> int \<Rightarrow> state \<Rightarrow> outcome \<times> state" where
  "start_scraping_main e start_year end_year s =
     (let s1 = s\<lparr>downloaded_papers := 0\<rparr> in
      if start_year < 1987 \<or> end_year > 2025 \<or> start_year > end_year
      then (Rejected, s1\<lparr>dialogs := dialogs s1 @ [invalid_range_dialog]\<rparr>)
      else
        (case init_sink e s1 of
           (Some x, s2) \<Rightarrow> (Raised x, s2)
         | (None, s2) \<Rightarrow>
             (Started, s2\<lparr>log_area := [], progress_bar := 0, total_papers := 0,
                          start_button_enabled := False, is_scraping := True\<rparr>)))"

text \<open>The handler followed by the thread it starts (line 151), run to its end.\<close>

definition start_scraping :: "env \<Rightarrow> int \<Rightarrow> int \<Rightarrow> state \<Rightarrow> outcome \<times> state" where
  "start_scraping e start_year end_year s =
     (case start_scraping_main e start_year end_year s of
        (Started, s1) \<Rightarrow>
          (case scrape_papers e start_year end_year s1 of
             (Some x, s2) \<Rightarrow> (Raised x, s2)
           | (None, s2) \<Rightarrow> (Finished, s2))
      | (out, s1) \<Rightarrow> (out, s1))"

text \<open>The state of the module when it is loaded (lines 22-28), with no file written yet.\<close>

definition initial_state :: state where
  "initial_state =
     \<lparr>total_papers = 0, downloaded_papers = 0, is_scraping = False, log_queue = [],
      logging = [], files = Map.empty, sink = None, requests = [], dialogs = [],
      log_area = [], progress_bar = 0, start_button_enabled = True, ui_updates = 0\<rparr>"

subsection \<open>The metadata file seen as rows\<close>

definition data_rows :: "state \<Rightarrow> csv_line list" where
  "data_rows s = filter (\<lambda>l. l \<noteq> Header) (sink_lines s)"

text \<open>
  \<open>appends_rows f c X\<close>: whatever the state, \<open>f\<close> completes with \<open>c\<close> and adds the data
  rows \<open>X\<close> to the end of the metadata file, after a header when the file was empty; a
  file that exists stays; and \<open>downloaded_papers\<close> advances by the number of these rows.
\<close>

definition appends_rows :: "(state \<Rightarrow> 'a \<times> state) \<Rightarrow> 'a \<Rightarrow> csv_line list \<Rightarrow> bool" where
  "appends_rows f c X \<longleftrightarrow>
     Header \<notin> set X \<and>
     (\<forall>s. fst (f s) = c
        \<and> sink_lines (snd (f s)) =
            sink_lines s @ (if sink_lines s = [] \<and> X \<noteq> [] then [Header] else []) @ X
        \<and> (sink s \<noteq> None \<longrightarrow> sink (snd (f s)) \<noteq> None)
        \<and> downloaded_papers (snd (f s)) = downloaded_papers s + int (length X))"

subsection \<open>A small archive to run the program on\<close>

text \<open>
  The year 2020 lists four papers: \<open>a\<close> has a title, two authors and a PDF link whose
  address answers 404 with a body; \<open>b\<close> has no title, no authors and no PDF link;
  \<open>c\<close> has a title, no author paragraph and a PDF link that cannot be reached;
  \<open>d\<close> cannot be reached. The listing of 2021 answers 404, the one of 2022 lists \<open>b\<close>
  alone, the one of 2023 lists \<open>a\<close> alone, the one of 2019 answers 200 with a text that
  the parser rejects, and every other address cannot be reached.
\<close>

definition page :: "string list \<Rightarrow> string option \<Rightarrow> string list list \<Rightarrow> response" where
  "page hrefs h ps =
     \<lparr>status_code = 200, parse_error = None,
      soup_of = \<lparr>anchor_hrefs = hrefs, h4_text = h, h4_p_anchors = ps\<rparr>,
      content = [], stream_error = None\<rparr>"

definition archive :: "string \<Rightarrow> request_error + response" where
  "archive u =
     (if u = BASE_URL @ ''/2019''
        then Inr ((page [] None [])\<lparr>parse_error := Some ''unknown status keyword''\<rparr>)
      else if u = BASE_URL @ ''/2020''
        then Inr (page [''/a-Abstract.html'', ''/index.html'', ''/b-Abstract.html'',
                        ''/c-Abstract.html'', ''/d-Abstract.html''] None [])
      else if u = BASE_URL @ ''/2021'' then Inr ((page [] None [])\<lparr>status_code := 404\<rparr>)
      else if u = BASE_URL @ ''/2022'' then Inr (page [''/b-Abstract.html''] None [])
      else if u = BASE_URL @ ''/2023'' then Inr (page [''/a-Abstract.html''] None [])
      else if u = SITE @ ''/a-Abstract.html''
        then Inr (page [''/index.html'', ''/a.pdf''] (Some '' Paper A '') [['' Ann '', ''Bob'']])
      else if u = SITE @ ''/b-Abstract.html'' then Inr (page [''/b.zip''] None [])
      else if u = SITE @ ''/c-Abstract.html'' then Inr (page [''/c.pdf''] (Some ''Paper C'') [])
      else if u = SITE @ ''/a.pdf''
        then Inr ((page [] None [])\<lparr>status_code := 404, content := ''Not Found''\<rparr>)
      else Inl (Transport ''ConnectionError''))"

definition env_ok :: env where
  "env_ok = \<lparr>http = archive, open_fails = (\<lambda>p. None)\<rparr>"

text \<open>The same archive, when the file of paper \<open>a\<close> cannot be opened for writing.\<close>

definition env_ro :: env where
  "env_ro = \<lparr>http = archive,
            open_fails = (\<lambda>p. if p = ''D:/scraped-pdfs/a.pdf''
                               then Some ''Permission denied'' else None)\<rparr>"

definition metadata_a :: metadata where
  "metadata_a = \<lparr>title = ''Paper A'', authors = ''Ann, Bob'',
                 url = ''https://papers.nips.cc/a-Abstract.html'', pdf_path = None\<rparr>"

text \<open>
  The state left by a first batch over 2022 started from the initial state: its only paper
  has no PDF link.
\<close>

definition leftover_state :: state where
  "leftover_state = snd (start_scraping env_ok 2022 2022 initial_state)"

section \<open>Properties\<close>

subsection \<open>Helper lemmas\<close>

lemma get_checked_ok:
  "http e u = Inr r \<Longrightarrow> status_code r < 400 \<or> 600 \<le> status_code r \<Longrightarrow>
   get_checked e u s = (Inr r, s\<lparr>requests := requests s @ [u]\<rparr>)"
  by (auto simp: get_checked_def requests_get_def raise_for_status_def)

lemma get_checked_fail:
  "http e u = Inl err \<or> (\<exists>r. http e u = Inr r \<and> raise_for_status r = Inl err) \<Longrightarrow>
   get_checked e u s = (Inl err, s\<lparr>requests := requests s @ [u]\<rparr>)"
  by (auto simp: get_checked_def requests_get_def)

lemma BeautifulSoup_ok: "parse_error r = None \<Longrightarrow> BeautifulSoup r = Inr (soup_of r)"
  by (simp add: BeautifulSoup_def)

lemma concat_iter_content: "0 < n \<Longrightarrow> concat (iter_content n bs) = bs"
proof (induction n bs rule: iter_content.induct)
  case (1 n bs)
  then show ?case
    by (subst iter_content.simps) auto
qed

lemma get_paper_links_ok:
  assumes "http e (listing_url year) = Inr l"
    and "status_code l < 400 \<or> 600 \<le> status_code l"
    and "parse_error l = None"
  shows "get_paper_links e year s =
      (Inr (map (\<lambda>h. SITE @ h) (filter (sublist ''-Abstract.html'') (anchor_hrefs (soup_of l)))),
       s\<lparr>logging := logging s @
            [(INFO, FetchingLinks (listing_url year)),
             (INFO, FoundPapers
                (length (filter (sublist ''-Abstract.html'') (anchor_hrefs (soup_of l)))) year)],
         requests := requests s @ [listing_url year]\<rparr>)"
  using assms
  by (simp add: get_paper_links_def get_checked_ok BeautifulSoup_ok logging_info_def Let_def)

lemma fetch_metadata_ok:
  assumes "http e paper_url = Inr r"
    and "status_code r < 400 \<or> 600 \<le> status_code r"
    and "parse_error r = None"
  shows "fetch_metadata e paper_url s =
      (Inr (Some \<lparr>title = extract_title (soup_of r),
                  authors = join '', '' (extract_authors (soup_of r)),
                  url = paper_url, pdf_path = None\<rparr>),
       s\<lparr>requests := requests s @ [paper_url]\<rparr>)"
  using assms by (simp add: fetch_metadata_def get_checked_ok BeautifulSoup_ok)

lemma download_pdf_no_link:
  assumes "http e paper_url = Inr r"
    and "status_code r < 400 \<or> 600 \<le> status_code r"
    and "parse_error r = None"
    and "find (suffix ''.pdf'') (anchor_hrefs (soup_of r)) = None"
  shows "download_pdf e paper_url m s =
           (None, s\<lparr>requests := requests s @ [paper_url],
                    log_queue := log_queue s @ [NoPdfFound paper_url]\<rparr>)"
  using assms by (simp add: download_pdf_def get_checked_ok BeautifulSoup_ok log_put_def)

lemma stream_to_file_whole:
  assumes "http e pdf_url = Inr a" and "stream_error a = None" and "open_fails e path = None"
  shows "stream_to_file e pdf_url path t =
      (Inr (), t\<lparr>requests := requests t @ [pdf_url],
                 files := (files t)(path \<mapsto> content a)\<rparr>)"
  using assms by (simp add: stream_to_file_def requests_get_def concat_iter_content)

lemma record_download_ok:
  assumes "open_fails e METADATA_FILE = None"
  shows "record_download e path m t =
      (None, t\<lparr>log_queue := log_queue t @ [Saved path,
                    DownloadedCount (downloaded_papers t + 1) (total_papers t)],
               sink := Some (sink_lines t @ (if sink_lines t = [] then [Header] else [])
                               @ [Row (title m) (authors m) (url m) path]),
               downloaded_papers := downloaded_papers t + 1,
               ui_updates := ui_updates t + 1\<rparr>)"
  using assms
  by (simp add: record_download_def append_row_def log_put_def sink_lines_def row_of_def Let_def)

lemma download_pdf_saved:
  assumes page: "http e paper_url = Inr r"
    and ok: "status_code r < 400 \<or> 600 \<le> status_code r"
    and parsed: "parse_error r = None"
    and link: "find (suffix ''.pdf'') (anchor_hrefs (soup_of r)) = Some href"
    and asset: "http e (SITE @ href) = Inr a"
    and whole: "stream_error a = None"
    and path: "path = path_join OUTPUT_DIR (last_segment (SITE @ href))"
    and w1: "open_fails e path = None"
    and w2: "open_fails e METADATA_FILE = None"
  shows "download_pdf e paper_url m s =
      (None, s\<lparr>requests := requests s @ [paper_url, SITE @ href],
               files := (files s)(path \<mapsto> content a),
               log_queue := log_queue s @ [Downloading (last_segment (SITE @ href)), Saved path,
                    DownloadedCount (downloaded_papers s + 1) (total_papers s)],
               sink := Some (sink_lines s @ (if sink_lines s = [] then [Header] else [])
                               @ [Row (title m) (authors m) (url m) path]),
               downloaded_papers := downloaded_papers s + 1,
               ui_updates := ui_updates s + 1\<rparr>)"
  by (simp add: download_pdf_def get_checked_ok [OF page ok] BeautifulSoup_ok [OF parsed]
        link Let_def path [symmetric] stream_to_file_whole [OF asset whole w1]
        record_download_ok [OF w2] log_put_def sink_lines_def)

lemma appends_rowsD:
  assumes "appends_rows f c X"
  shows "fst (f s) = c"
    and "sink_lines (snd (f s)) =
           sink_lines s @ (if sink_lines s = [] \<and> X \<noteq> [] then [Header] else []) @ X"
    and "sink s \<noteq> None \<Longrightarrow> sink (snd (f s)) \<noteq> None"
    and "Header \<notin> set X"
    and "downloaded_papers (snd (f s)) = downloaded_papers s + int (length X)"
  using assms by (simp_all add: appends_rows_def)

lemma appends_rows_seq:
  assumes f: "appends_rows f c X" and k: "appends_rows k d Y"
    and eq: "\<And>s. h s = k (snd (f s))"
  shows "appends_rows h d (X @ Y)"
  unfolding appends_rows_def
proof (intro conjI allI impI)
  show "Header \<notin> set (X @ Y)"
    using appends_rowsD(4) [OF f] appends_rowsD(4) [OF k] by simp
next
  fix s show "fst (h s) = d"
    by (simp add: eq appends_rowsD(1) [OF k])
next
  fix s
  show "sink_lines (snd (h s)) =
        sink_lines s @ (if sink_lines s = [] \<and> X @ Y \<noteq> [] then [Header] else []) @ X @ Y"
    by (simp add: eq appends_rowsD(2) [OF k] appends_rowsD(2) [OF f])
next
  fix s :: state assume "sink s \<noteq> None"
  then show "sink (snd (h s)) \<noteq> None"
    by (simp add: eq appends_rowsD(3) [OF k] appends_rowsD(3) [OF f])
next
  fix s
  show "downloaded_papers (snd (h s)) = downloaded_papers s + int (length (X @ Y))"
    by (simp add: eq appends_rowsD(5) [OF k] appends_rowsD(5) [OF f])
qed

lemma appends_rows_map:
  assumes f: "appends_rows f c X" and eq: "\<And>s. h s = (g (fst (f s)), snd (f s))"
  shows "appends_rows h (g c) X"
  using f unfolding appends_rows_def by (simp add: eq)

lemma appends_rows_pure:
  assumes "\<And>s t. fst (f s) = fst (f t)" and "\<And>s. sink (snd (f s)) = sink s"
    and "\<And>s. downloaded_papers (snd (f s)) = downloaded_papers s"
  shows "\<exists>c. appends_rows f c []"
proof
  show "appends_rows f (fst (f initial_state)) []"
    unfolding appends_rows_def using assms by (simp add: sink_lines_def)
qed

lemma get_checked_appends: "\<exists>c. appends_rows (get_checked e u) c []"
  by (rule appends_rows_pure)
     (simp_all add: get_checked_def requests_get_def split: sum.splits)

lemma fetch_metadata_appends: "\<exists>c. appends_rows (fetch_metadata e u) c []"
  by (rule appends_rows_pure)
     (simp_all add: fetch_metadata_def get_checked_def requests_get_def logging_error_def
        split: sum.splits)

lemma get_paper_links_appends: "\<exists>c. appends_rows (get_paper_links e y) c []"
  by (rule appends_rows_pure)
     (simp_all add: get_paper_links_def get_checked_def requests_get_def logging_error_def
        logging_info_def Let_def split: sum.splits)

lemma handle_request_exception_appends:
  "\<exists>c. appends_rows (handle_request_exception u x) c []"
  by (rule appends_rows_pure)
     (simp_all add: handle_request_exception_def log_put_def split: exc.splits)

lemma stream_to_file_appends:
  "\<exists>c. appends_rows (\<lambda>s. stream_to_file e pu p (log_put l s)) c []"
  by (rule appends_rows_pure)
     (simp_all add: stream_to_file_def requests_get_def log_put_def Let_def
        split: sum.splits option.splits)

lemma record_download_appends:
  "\<exists>c X. appends_rows
     (\<lambda>s. case record_download e p m s of
             (Some x, s4) \<Rightarrow> handle_request_exception u x s4
           | (None, s4) \<Rightarrow> (None, s4)) c X"
proof (cases "open_fails e METADATA_FILE")
  case None
  have "appends_rows
     (\<lambda>s. case record_download e p m s of
             (Some x, s4) \<Rightarrow> handle_request_exception u x s4
           | (None, s4) \<Rightarrow> (None, s4)) None [row_of (m\<lparr>pdf_path := Some p\<rparr>)]"
    unfolding appends_rows_def
    by (simp add: record_download_def append_row_def None log_put_def sink_lines_def
          row_of_def Let_def)
  then show ?thesis by blast
next
  case (Some oe)
  have "appends_rows
     (\<lambda>s. case record_download e p m s of
             (Some x, s4) \<Rightarrow> handle_request_exception u x s4
           | (None, s4) \<Rightarrow> (None, s4)) (Some (OSError oe)) []"
    unfolding appends_rows_def
    by (simp add: record_download_def append_row_def Some log_put_def sink_lines_def
          handle_request_exception_def Let_def)
  then show ?thesis by blast
qed

lemma download_pdf_appends: "\<exists>c X. appends_rows (download_pdf e u m) c X"
proof -
  obtain c1 where c1: "appends_rows (get_checked e u) c1 []"
    using get_checked_appends by blast
  have f1: "get_checked e u s = (c1, snd (get_checked e u s))" for s
    using appends_rowsD(1) [OF c1, of s] by (cases "get_checked e u s") simp
  have raised: ?thesis
    if eq: "\<And>s. download_pdf e u m s = handle_request_exception u x (snd (get_checked e u s))"
    for x
  proof -
    obtain d where k: "appends_rows (handle_request_exception u x) d []"
      using handle_request_exception_appends by blast
    from appends_rows_seq [OF c1 k eq] show ?thesis by blast
  qed
  show ?thesis
  proof (cases c1)
    case (Inl err)
    show ?thesis
      by (rule raised [where x = "RequestException err"])
         (subst download_pdf_def, subst f1, simp add: Inl)
  next
    case (Inr r)
    show ?thesis
    proof (cases "BeautifulSoup r")
      case (Inl x)
      show ?thesis
        by (rule raised [where x = x])
           (subst download_pdf_def, subst f1, simp add: Inr Inl)
    next
      case sp: (Inr sp)
      show ?thesis
      proof (cases "find (suffix ''.pdf'') (anchor_hrefs sp)")
        case None
        obtain d where k:
          "appends_rows (\<lambda>t. (None :: completion, log_put (NoPdfFound u) t)) d []"
          using appends_rows_pure [of "\<lambda>t. (None :: completion, log_put (NoPdfFound u) t)"]
          by (auto simp: log_put_def)
        have eq: "download_pdf e u m s =
            (None, log_put (NoPdfFound u) (snd (get_checked e u s)))" for s
          by (subst download_pdf_def, subst f1) (simp add: Inr sp None)
        from appends_rows_seq [OF c1 k eq] show ?thesis by blast
      next
        case (Some href)
        define pu where "pu = SITE @ href"
        define p where "p = path_join OUTPUT_DIR (last_segment pu)"
        obtain c2 where c2:
          "appends_rows
             (\<lambda>s. stream_to_file e pu p (log_put (Downloading (last_segment pu)) s)) c2 []"
          using stream_to_file_appends by blast
        have f2: "stream_to_file e pu p (log_put (Downloading (last_segment pu)) s) =
             (c2, snd (stream_to_file e pu p (log_put (Downloading (last_segment pu)) s)))"
          for s
          using appends_rowsD(1) [OF c2, of s]
          by (cases "stream_to_file e pu p (log_put (Downloading (last_segment pu)) s)") simp
        obtain d Y where k: "appends_rows
           (\<lambda>t. case c2 of
                   Inl x \<Rightarrow> handle_request_exception u x t
                 | Inr v \<Rightarrow>
                     (case record_download e p m t of
                        (Some x, s4) \<Rightarrow> handle_request_exception u x s4
                      | (None, s4) \<Rightarrow> (None, s4))) d Y"
        proof (cases c2)
          case (Inl x)
          then show ?thesis
            using handle_request_exception_appends [where u = u and x = x] that by auto
        next
          case (Inr v)
          then show ?thesis
            using record_download_appends [where e = e and p = p and m = m and u = u] that
            by auto
        qed
        have eq2: "download_pdf e u m s =
           (case c2 of
                   Inl x \<Rightarrow> handle_request_exception u x
                      (snd (stream_to_file e pu p (log_put (Downloading (last_segment pu))
                          (snd (get_checked e u s)))))
                 | Inr v \<Rightarrow>
                     (case record_download e p m
                        (snd (stream_to_file e pu p (log_put (Downloading (last_segment pu))
                          (snd (get_checked e u s))))) of
                        (Some x, s4) \<Rightarrow> handle_request_exception u x s4
                      | (None, s4) \<Rightarrow> (None, s4)))" for s
          apply (subst download_pdf_def, subst f1)
          apply (simp add: Inr sp Some Let_def pu_def [symmetric] p_def [symmetric])
          apply (subst f2)
          apply (simp add: p_def split: sum.splits)
          done
        have k': "appends_rows
           (\<lambda>t. case c2 of
                   Inl x \<Rightarrow> handle_request_exception u x
                      (snd (stream_to_file e pu p (log_put (Downloading (last_segment pu)) t)))
                 | Inr v \<Rightarrow>
                     (case record_download e p m
                        (snd (stream_to_file e pu p
                               (log_put (Downloading (last_segment pu)) t))) of
                        (Some x, s4) \<Rightarrow> handle_request_exception u x s4
                      | (None, s4) \<Rightarrow> (None, s4))) d ([] @ Y)"
          by (rule appends_rows_seq [OF c2 k]) simp
        from appends_rows_seq [OF c1 k' eq2] show ?thesis by blast
      qed
    qed
  qed
qed

lemma sink_lines_total_papers: "sink_lines (t\<lparr>total_papers := n\<rparr>) = sink_lines t"
  by (simp add: sink_lines_def)

lemma appends_rows_return: "appends_rows (\<lambda>t. (c, t)) c []"
  by (simp add: appends_rows_def)

lemma submit_all_appends: "\<exists>cs X. appends_rows (submit_all e us) cs X"
proof (induction us)
  case Nil
  have "appends_rows (submit_all e []) (Inr []) []"
    by (simp add: appends_rows_def)
  then show ?case by blast
next
  case (Cons u rest)
  obtain cs X where ih: "appends_rows (submit_all e rest) cs X"
    using Cons.IH by blast
  obtain c where c: "appends_rows (fetch_metadata e u) c []"
    using fetch_metadata_appends by blast
  have f: "fetch_metadata e u s = (c, snd (fetch_metadata e u s))" for s
    using appends_rowsD(1) [OF c, of s] by (cases "fetch_metadata e u s") simp
  consider (raised) x where "c = Inl x" | (none) "c = Inr None" | (some) m where "c = Inr (Some m)"
  proof (cases c)
    case (Inl x)
    then show ?thesis using that(1) by blast
  next
    case (Inr b)
    then show ?thesis using that(2,3) by (cases b) auto
  qed
  then show ?case
  proof cases
    case raised
    have eq: "submit_all e (u # rest) s = (Inl x, snd (fetch_metadata e u s))" for s
      by (subst submit_all.simps, subst f) (simp add: raised)
    from appends_rows_seq [OF c appends_rows_return eq] show ?thesis by blast
  next
    case none
    have eq: "submit_all e (u # rest) s = submit_all e rest (snd (fetch_metadata e u s))" for s
      by (subst submit_all.simps, subst f) (simp add: none)
    from appends_rows_seq [OF c ih eq] show ?thesis by blast
  next
    case some
    obtain d Y where d: "appends_rows (download_pdf e u m) d Y"
      using download_pdf_appends by blast
    have g: "download_pdf e u m s = (d, snd (download_pdf e u m s))" for s
      using appends_rowsD(1) [OF d, of s] by (cases "download_pdf e u m s") simp
    let ?g = "\<lambda>r. case r of Inl x \<Rightarrow> Inl x | Inr cs \<Rightarrow> Inr (d # cs)"
    have k1: "appends_rows
        (\<lambda>t. case submit_all e rest t of
                (Inl x, s3) \<Rightarrow> (Inl x, s3)
              | (Inr cs, s3) \<Rightarrow> (Inr (d # cs), s3)) (?g cs) X"
      by (rule appends_rows_map [OF ih]) (simp add: split_beta split: sum.splits)
    have k2: "appends_rows
        (\<lambda>t. case submit_all e rest (snd (download_pdf e u m t)) of
                (Inl x, s3) \<Rightarrow> (Inl x, s3)
              | (Inr cs, s3) \<Rightarrow> (Inr (d # cs), s3)) (?g cs) (Y @ X)"
      by (rule appends_rows_seq [OF d k1]) simp
    have eq: "submit_all e (u # rest) s =
        (case submit_all e rest (snd (download_pdf e u m (snd (fetch_metadata e u s)))) of
           (Inl x, s3) \<Rightarrow> (Inl x, s3)
         | (Inr cs, s3) \<Rightarrow> (Inr (d # cs), s3))" for s
      apply (subst submit_all.simps, subst f)
      apply (simp add: some)
      apply (subst g)
      apply simp
      done
    from appends_rows_seq [OF c k2 eq] show ?thesis by blast
  qed
qed

lemma scrape_years_appends: "\<exists>c X. appends_rows (scrape_years e ys) c X"
proof (induction ys)
  case Nil
  have "appends_rows (scrape_years e []) None []"
    by (simp add: appends_rows_def)
  then show ?case by blast
next
  case (Cons y ys)
  obtain c X where ih: "appends_rows (scrape_years e ys) c X"
    using Cons.IH by blast
  obtain lr where l: "appends_rows (get_paper_links e y) lr []"
    using get_paper_links_appends by blast
  have f: "get_paper_links e y s = (lr, snd (get_paper_links e y s))" for s
    using appends_rowsD(1) [OF l, of s] by (cases "get_paper_links e y s") simp
  show ?case
  proof (cases lr)
    case (Inl x)
    have eq: "scrape_years e (y # ys) s = (Some x, snd (get_paper_links e y s))" for s
      by (subst scrape_years.simps, subst f) (simp add: Inl)
    from appends_rows_seq [OF l appends_rows_return eq] show ?thesis by blast
  next
    case (Inr ls)
    obtain cr Y where sa: "appends_rows
         (\<lambda>t. submit_all e ls (t\<lparr>total_papers := total_papers t + int (length ls)\<rparr>)) cr Y"
    proof -
      obtain cr Y where a: "appends_rows (submit_all e ls) cr Y"
        using submit_all_appends by blast
      have "appends_rows
         (\<lambda>t. submit_all e ls (t\<lparr>total_papers := total_papers t + int (length ls)\<rparr>)) cr Y"
        unfolding appends_rows_def
        by (simp add: appends_rowsD [OF a] sink_lines_total_papers)
      then show ?thesis using that by blast
    qed
    let ?sub = "\<lambda>t. submit_all e ls (t\<lparr>total_papers := total_papers t + int (length ls)\<rparr>)"
    have g: "?sub t = (cr, snd (?sub t))" for t
      using appends_rowsD(1) [OF sa, of t] by (cases "?sub t") simp
    let ?done = "case cr of Inl x \<Rightarrow> Some x | Inr cs \<Rightarrow> first_raised cs"
    have eq: "scrape_years e (y # ys) s =
        (case ?done of
           Some x \<Rightarrow> (Some x, snd (?sub (snd (get_paper_links e y s))))
         | None \<Rightarrow> scrape_years e ys (snd (?sub (snd (get_paper_links e y s)))))" for s
      apply (subst scrape_years.simps, subst f)
      apply (simp add: Inr Let_def)
      apply (subst g)
      apply (simp split: sum.splits)
      done
    show ?thesis
    proof (cases ?done)
      case None
      have k: "appends_rows (\<lambda>t. scrape_years e ys (snd (?sub t))) c (Y @ X)"
        by (rule appends_rows_seq [OF sa ih]) simp
      have "appends_rows (scrape_years e (y # ys)) c ([] @ Y @ X)"
        by (rule appends_rows_seq [OF l k]) (subst eq, simp add: None)
      then show ?thesis by blast
    next
      case (Some x)
      have k: "appends_rows (\<lambda>t. (Some x, snd (?sub t))) (Some x) (Y @ [])"
        by (rule appends_rows_seq [OF sa appends_rows_return]) simp
      have "appends_rows (scrape_years e (y # ys)) (Some x) ([] @ Y @ [])"
        by (rule appends_rows_seq [OF l k]) (subst eq, simp add: Some)
      then show ?thesis by blast
    qed
  qed
qed

lemma scrape_papers_appends: "\<exists>c X. appends_rows (scrape_papers e a b) c X"
proof -
  obtain c X where y: "appends_rows (scrape_years e [a..b]) c X"
    using scrape_years_appends by blast
  have "appends_rows (scrape_papers e a b) c X"
    unfolding appends_rows_def
    using appends_rowsD [OF y]
    by (cases c) (simp_all add: scrape_papers_def split_beta sink_lines_def)
  then show ?thesis by blast
qed

lemma data_rows_extend:
  assumes "Header \<notin> set X"
    and "sink_lines t = ls @ (if ls = [] \<and> X \<noteq> [] then [Header] else []) @ X"
  shows "data_rows t = filter (\<lambda>l. l \<noteq> Header) ls @ X"
  using assms by (auto simp: data_rows_def filter_id_conv)

lemma start_scraping_main_rejected:
  assumes "start_year < 1987 \<or> end_year > 2025 \<or> start_year > end_year"
  shows "start_scraping_main e start_year end_year s =
      (Rejected, s\<lparr>downloaded_papers := 0, dialogs := dialogs s @ [invalid_range_dialog]\<rparr>)"
  unfolding start_scraping_main_def Let_def using assms by (simp only: if_True) simp

lemma start_scraping_rejected:
  assumes "start_year < 1987 \<or> end_year > 2025 \<or> start_year > end_year"
  shows "start_scraping e start_year end_year s =
           (Rejected, s\<lparr>downloaded_papers := 0,
                        dialogs := dialogs s @ [invalid_range_dialog]\<rparr>)"
  by (simp add: start_scraping_def start_scraping_main_rejected [OF assms])

lemma start_scraping_init_fails:
  assumes "\<not> (start_year < 1987 \<or> end_year > 2025 \<or> start_year > end_year)"
    and "sink s = None" and "open_fails e METADATA_FILE = Some oe"
  shows "start_scraping e start_year end_year s = (Raised (OSError oe), s\<lparr>downloaded_papers := 0\<rparr>)"
proof -
  have "start_scraping_main e start_year end_year s =
      (Raised (OSError oe), s\<lparr>downloaded_papers := 0\<rparr>)"
    unfolding start_scraping_main_def Let_def using assms
    by (simp only: if_False) (simp add: init_sink_def)
  then show ?thesis
    by (simp add: start_scraping_def)
qed

lemma start_scraping_main_started:
  assumes "\<not> (start_year < 1987 \<or> end_year > 2025 \<or> start_year > end_year)"
    and "sink s \<noteq> None \<or> open_fails e METADATA_FILE = None"
  shows "start_scraping_main e start_year end_year s =
      (Started, s\<lparr>downloaded_papers := 0,
                sink := Some (case sink s of None \<Rightarrow> [Header] | Some ls \<Rightarrow> ls),
                log_area := [], progress_bar := 0, total_papers := 0,
                start_button_enabled := False, is_scraping := True\<rparr>)"
proof -
  have i: "init_sink e (s\<lparr>downloaded_papers := 0\<rparr>) =
       (None, s\<lparr>downloaded_papers := 0,
                sink := Some (case sink s of None \<Rightarrow> [Header] | Some ls \<Rightarrow> ls)\<rparr>)"
    using assms(2) by (cases "sink s") (auto simp: init_sink_def)
  show ?thesis
    unfolding start_scraping_main_def Let_def using assms(1)
    by (simp only: if_False i) simp
qed

lemma start_scraping_started:
  assumes "\<not> (start_year < 1987 \<or> end_year > 2025 \<or> start_year > end_year)"
    and "sink s \<noteq> None \<or> open_fails e METADATA_FILE = None"
  shows "snd (start_scraping e start_year end_year s) =
           snd (scrape_papers e start_year end_year
             (s\<lparr>downloaded_papers := 0,
                sink := Some (case sink s of None \<Rightarrow> [Header] | Some ls \<Rightarrow> ls),
                log_area := [], progress_bar := 0, total_papers := 0,
                start_button_enabled := False, is_scraping := True\<rparr>))"
  by (simp add: start_scraping_def start_scraping_main_started [OF assms]
        split: prod.splits option.splits)

subsection \<open>The claims\<close>

text \<open>
  C2. The claim: an error of the file system while the downloaded asset is written is
  logged and does not end the batch. The code does otherwise. Take a year whose listing
  holds one paper, with a PDF link whose address answers, and let the file for the PDF
  not be writable. The handler of \<^verbatim>\<open>download_pdf\<close> catches RequestException only, so
  the OSError leaves the task, and \<^verbatim>\<open>future.result()\<close> re-raises it in
  \<^verbatim>\<open>scrape_papers\<close>, which ends with it: the years after this one are not visited,
  nothing about the error is put on the log queue, and \<open>is_scraping\<close> and the start
  button are left as the handler of the button set them.
\<close>

theorem io_error_ends_batch:
  assumes range: "year \<le> end_year"
    and l1: "http e (listing_url year) = Inr l"
    and l2: "status_code l < 400 \<or> 600 \<le> status_code l"
    and lp: "parse_error l = None"
    and l3: "filter (sublist ''-Abstract.html'') (anchor_hrefs (soup_of l)) = [h]"
    and page: "http e (SITE @ h) = Inr r"
    and ok: "status_code r < 400 \<or> 600 \<le> status_code r"
    and parsed: "parse_error r = None"
    and link: "find (suffix ''.pdf'') (anchor_hrefs (soup_of r)) = Some href"
    and asset: "http e (SITE @ href) = Inr a"
    and fail: "open_fails e (path_join OUTPUT_DIR (last_segment (SITE @ href))) = Some oe"
  shows "scrape_papers e year end_year s =
           (Some (OSError oe),
            s\<lparr>total_papers := total_papers s + 1,
              logging := logging s @ [(INFO, FetchingLinks (listing_url year)),
                                      (INFO, FoundPapers 1 year)],
              requests := requests s @ [listing_url year, SITE @ h, SITE @ h, SITE @ href],
              log_queue := log_queue s @ [Downloading (last_segment (SITE @ href))]\<rparr>)"
proof -
  have g: "get_paper_links e year s =
      (Inr [SITE @ h], s\<lparr>logging := logging s @ [(INFO, FetchingLinks (listing_url year)),
                                              (INFO, FoundPapers 1 year)],
                     requests := requests s @ [listing_url year]\<rparr>)"
    by (simp add: get_paper_links_ok [OF l1 l2 lp] l3)
  have d: "download_pdf e (SITE @ h) m t =
      (Some (OSError oe),
       t\<lparr>requests := requests t @ [SITE @ h, SITE @ href],
         log_queue := log_queue t @ [Downloading (last_segment (SITE @ href))]\<rparr>)" for m t
    by (simp add: download_pdf_def get_checked_ok [OF page ok] BeautifulSoup_ok [OF parsed]
          link Let_def stream_to_file_def requests_get_def asset fail
          handle_request_exception_def log_put_def)
  have y: "[year..end_year] = year # [year + 1..end_year]"
    using range by (rule upto_rec1)
  show ?thesis
    by (simp add: scrape_papers_def y g fetch_metadata_ok [OF page ok parsed] d)
qed

theorem io_error_ends_batch_witness:
  "(2023 :: int) \<le> 2024
 \<and> http env_ro (listing_url 2023) = Inr (page [''/a-Abstract.html''] None [])
 \<and> find (suffix ''.pdf'')
      (anchor_hrefs (soup_of
         (page [''/index.html'', ''/a.pdf''] (Some '' Paper A '') [['' Ann '', ''Bob'']])))
     = Some ''/a.pdf''
 \<and> open_fails env_ro (path_join OUTPUT_DIR (last_segment (SITE @ ''/a.pdf'')))
     = Some ''Permission denied''
 \<and> fst (scrape_papers env_ro 2023 2024 initial_state) = Some (OSError ''Permission denied'')
 \<and> log_queue (snd (scrape_papers env_ro 2023 2024 initial_state)) = [Downloading ''a.pdf'']
 \<and> requests (snd (scrape_papers env_ro 2023 2024 initial_state)) =
     [listing_url 2023, SITE @ ''/a-Abstract.html'', SITE @ ''/a-Abstract.html'',
      SITE @ ''/a.pdf'']"
proof -
  let ?l = "page [''/a-Abstract.html''] None []"
  let ?r = "page [''/index.html'', ''/a.pdf''] (Some '' Paper A '') [['' Ann '', ''Bob'']]"
  let ?a = "(page [] None [])\<lparr>status_code := 404, content := ''Not Found''\<rparr>"
  have u: "listing_url 2023 = BASE_URL @ ''/2023''"
    by code_simp
  have l1: "http env_ro (listing_url 2023) = Inr ?l"
    by (simp add: u env_ro_def archive_def SITE_def BASE_URL_def)
  have l2: "status_code ?l < 400 \<or> 600 \<le> status_code ?l"
    by (simp add: page_def)
  have lp: "parse_error ?l = None" and hp: "parse_error ?r = None"
    by (simp_all add: page_def)
  have l3: "filter (sublist ''-Abstract.html'') (anchor_hrefs (soup_of ?l)) = [''/a-Abstract.html'']"
    by code_simp
  have h1: "http env_ro (SITE @ ''/a-Abstract.html'') = Inr ?r"
    by (simp add: env_ro_def archive_def SITE_def BASE_URL_def)
  have h2: "status_code ?r < 400 \<or> 600 \<le> status_code ?r"
    by (simp add: page_def)
  have h3: "find (suffix ''.pdf'') (anchor_hrefs (soup_of ?r)) = Some ''/a.pdf''"
    by code_simp
  have h4: "http env_ro (SITE @ ''/a.pdf'') = Inr ?a"
    by (simp add: env_ro_def archive_def SITE_def BASE_URL_def)
  have n: "last_segment (SITE @ ''/a.pdf'') = ''a.pdf''"
    by code_simp
  have w: "open_fails env_ro (path_join OUTPUT_DIR (last_segment (SITE @ ''/a.pdf'')))
            = Some ''Permission denied''"
    by code_simp
  have r: "(2023 :: int) \<le> 2024"
    by simp
  show ?thesis
    using io_error_ends_batch [OF r l1 l2 lp l3 h1 h2 hp h3 h4 w, of initial_state] l1 h3 w
    by (simp add: n) (simp add: initial_state_def)
qed

text \<open>
  C3. When the detail page of a paper has no anchor whose \<^verbatim>\<open>href\<close> ends in \<^verbatim>\<open>.pdf\<close>,
  \<^verbatim>\<open>download_pdf\<close> returns after putting the line "No PDF found" on the log queue: the
  metadata file and \<open>downloaded_papers\<close> are as before, and \<^verbatim>\<open>scrape_papers\<close> goes on
  with the remaining papers, the task of this paper having completed without exception.
\<close>

theorem asset_missing_skips_paper:
  assumes page: "http e paper_url = Inr r"
    and ok: "status_code r < 400 \<or> 600 \<le> status_code r"
    and parsed: "parse_error r = None"
    and nolink: "find (suffix ''.pdf'') (anchor_hrefs (soup_of r)) = None"
  shows "download_pdf e paper_url m s =
           (None, s\<lparr>requests := requests s @ [paper_url],
                    log_queue := log_queue s @ [NoPdfFound paper_url]\<rparr>)
       \<and> sink (snd (download_pdf e paper_url m s)) = sink s
       \<and> downloaded_papers (snd (download_pdf e paper_url m s)) = downloaded_papers s
       \<and> submit_all e (paper_url # rest) s =
           (case submit_all e rest
                   (s\<lparr>requests := requests s @ [paper_url, paper_url],
                      log_queue := log_queue s @ [NoPdfFound paper_url]\<rparr>) of
              (Inl x, s') \<Rightarrow> (Inl x, s')
            | (Inr cs, s') \<Rightarrow> (Inr (None # cs), s'))"
  by (simp add: download_pdf_no_link [OF page ok parsed nolink]
        fetch_metadata_ok [OF page ok parsed])

theorem asset_missing_skips_paper_witness:
  "http env_ok (SITE @ ''/b-Abstract.html'') = Inr (page [''/b.zip''] None [])
 \<and> status_code (page [''/b.zip''] None []) < 400
 \<and> parse_error (page [''/b.zip''] None []) = None
 \<and> find (suffix ''.pdf'') (anchor_hrefs (soup_of (page [''/b.zip''] None []))) = None
 \<and> fst (download_pdf env_ok (SITE @ ''/b-Abstract.html'') metadata_a initial_state) = None
 \<and> log_queue (snd (download_pdf env_ok (SITE @ ''/b-Abstract.html'') metadata_a initial_state))
     = [NoPdfFound (SITE @ ''/b-Abstract.html'')]
 \<and> sink (snd (download_pdf env_ok (SITE @ ''/b-Abstract.html'') metadata_a initial_state)) = None
 \<and> downloaded_papers
      (snd (download_pdf env_ok (SITE @ ''/b-Abstract.html'') metadata_a initial_state)) = 0"
proof -
  have h1: "http env_ok (SITE @ ''/b-Abstract.html'') = Inr (page [''/b.zip''] None [])"
    by (simp add: env_ok_def archive_def SITE_def BASE_URL_def)
  have h2: "status_code (page [''/b.zip''] None []) < 400
          \<or> 600 \<le> status_code (page [''/b.zip''] None [])"
    by (simp add: page_def)
  have hp: "parse_error (page [''/b.zip''] None []) = None"
    by (simp add: page_def)
  have h3: "find (suffix ''.pdf'') (anchor_hrefs (soup_of (page [''/b.zip''] None []))) = None"
    by code_simp
  show ?thesis
    using asset_missing_skips_paper [OF h1 h2 hp h3, of metadata_a initial_state "[]"] h1 h3
    by (simp add: initial_state_def page_def)
qed

text \<open>
  C4. A year range that violates \<open>1987 \<le> start \<le> end \<le> 2025\<close> is rejected at once:
  \<^verbatim>\<open>start_scraping\<close> shows the error dialog and returns. No request is made, no file is
  created or written, no paper is counted and the thread is not started; the only global
  written is \<open>downloaded_papers\<close>, set to 0 before the check.
\<close>

theorem invalid_range_rejected:
  assumes "\<not> (1987 \<le> start_year \<and> start_year \<le> end_year \<and> end_year \<le> 2025)"
  shows "start_scraping e start_year end_year s =
           (Rejected, s\<lparr>downloaded_papers := 0,
                        dialogs := dialogs s @ [invalid_range_dialog]\<rparr>)
       \<and> requests (snd (start_scraping e start_year end_year s)) = requests s
       \<and> sink (snd (start_scraping e start_year end_year s)) = sink s
       \<and> files (snd (start_scraping e start_year end_year s)) = files s
       \<and> log_queue (snd (start_scraping e start_year end_year s)) = log_queue s
       \<and> total_papers (snd (start_scraping e start_year end_year s)) = total_papers s"
proof -
  from assms have "start_year < 1987 \<or> end_year > 2025 \<or> start_year > end_year"
    by arith
  then show ?thesis
    by (simp add: start_scraping_rejected)
qed
theorem invalid_range_rejected_witness:
  "\<not> (1987 \<le> (2020 :: int) \<and> (2020 :: int) \<le> 2010 \<and> (2010 :: int) \<le> 2025)
 \<and> fst (start_scraping env_ok 2020 2010 initial_state) = Rejected
 \<and> dialogs (snd (start_scraping env_ok 2020 2010 initial_state)) = [invalid_range_dialog]
 \<and> requests (snd (start_scraping env_ok 2020 2010 initial_state)) = []
 \<and> sink (snd (start_scraping env_ok 2020 2010 initial_state)) = None"
  using invalid_range_rejected [of 2020 2010 env_ok initial_state]
  by (simp add: initial_state_def)




text \<open>
  C6. \<^verbatim>\<open>fetch_metadata\<close> on a page without \<^verbatim>\<open>h4\<close> returns metadata whose title is
  "No Title". When the request raises (the connection fails, or the status is 4xx or
  5xx) it logs the error and returns no metadata; \<^verbatim>\<open>scrape_papers\<close> then submits no
  download for the paper and goes on: the paper's address was requested once.
\<close>

theorem missing_title_soft_network_hard:
  "(\<forall>r. http e paper_url = Inr r \<and> (status_code r < 400 \<or> 600 \<le> status_code r)
          \<and> parse_error r = None \<and> h4_text (soup_of r) = None \<longrightarrow>
        fetch_metadata e paper_url s =
          (Inr (Some \<lparr>title = ''No Title'',
                      authors = join '', '' (extract_authors (soup_of r)),
                      url = paper_url, pdf_path = None\<rparr>),
           s\<lparr>requests := requests s @ [paper_url]\<rparr>))
 \<and> (\<forall>err. http e paper_url = Inl err
          \<or> (\<exists>r. http e paper_url = Inr r \<and> raise_for_status r = Inl err) \<longrightarrow>
        fetch_metadata e paper_url s =
          (Inr None, s\<lparr>requests := requests s @ [paper_url],
                   logging := logging s @ [(ERROR, ErrorFetchingMetadata paper_url err)]\<rparr>)
      \<and> submit_all e (paper_url # rest) s =
          submit_all e rest
            (s\<lparr>requests := requests s @ [paper_url],
               logging := logging s @ [(ERROR, ErrorFetchingMetadata paper_url err)]\<rparr>))"
proof (intro conjI allI impI)
  fix r
  assume "http e paper_url = Inr r \<and> (status_code r < 400 \<or> 600 \<le> status_code r)
          \<and> parse_error r = None \<and> h4_text (soup_of r) = None"
  then show "fetch_metadata e paper_url s =
          (Inr (Some \<lparr>title = ''No Title'',
                      authors = join '', '' (extract_authors (soup_of r)),
                      url = paper_url, pdf_path = None\<rparr>),
           s\<lparr>requests := requests s @ [paper_url]\<rparr>)"
    by (simp add: fetch_metadata_ok extract_title_def)
next
  fix err
  assume a: "http e paper_url = Inl err
          \<or> (\<exists>r. http e paper_url = Inr r \<and> raise_for_status r = Inl err)"
  show f: "fetch_metadata e paper_url s =
          (Inr None, s\<lparr>requests := requests s @ [paper_url],
                   logging := logging s @ [(ERROR, ErrorFetchingMetadata paper_url err)]\<rparr>)"
    by (simp add: fetch_metadata_def get_checked_fail [OF a] logging_error_def)
  show "submit_all e (paper_url # rest) s =
          submit_all e rest
            (s\<lparr>requests := requests s @ [paper_url],
               logging := logging s @ [(ERROR, ErrorFetchingMetadata paper_url err)]\<rparr>)"
    by (simp add: f)
qed

theorem missing_title_soft_network_hard_witness:
  "http env_ok (SITE @ ''/b-Abstract.html'') = Inr (page [''/b.zip''] None [])
 \<and> status_code (page [''/b.zip''] None []) < 400
 \<and> parse_error (page [''/b.zip''] None []) = None
 \<and> h4_text (soup_of (page [''/b.zip''] None [])) = None
 \<and> fst (fetch_metadata env_ok (SITE @ ''/b-Abstract.html'') initial_state) =
      Inr (Some \<lparr>title = ''No Title'', authors = [], url = SITE @ ''/b-Abstract.html'',
                 pdf_path = None\<rparr>)
 \<and> http env_ok (SITE @ ''/d-Abstract.html'') = Inl (Transport ''ConnectionError'')
 \<and> fst (fetch_metadata env_ok (SITE @ ''/d-Abstract.html'') initial_state) = Inr None
 \<and> logging (snd (fetch_metadata env_ok (SITE @ ''/d-Abstract.html'') initial_state)) =
      [(ERROR, ErrorFetchingMetadata (SITE @ ''/d-Abstract.html'')
                 (Transport ''ConnectionError''))]
 \<and> requests (snd (submit_all env_ok [SITE @ ''/d-Abstract.html''] initial_state)) =
      [SITE @ ''/d-Abstract.html'']"
proof -
  have h1: "http env_ok (SITE @ ''/b-Abstract.html'') = Inr (page [''/b.zip''] None [])"
    by (simp add: env_ok_def archive_def SITE_def BASE_URL_def)
  have h2: "status_code (page [''/b.zip''] None []) < 400"
    and hp: "parse_error (page [''/b.zip''] None []) = None"
    and h3: "h4_text (soup_of (page [''/b.zip''] None [])) = None"
    and h4: "extract_authors (soup_of (page [''/b.zip''] None [])) = []"
    by (simp_all add: page_def extract_authors_def)
  have h5: "http env_ok (SITE @ ''/d-Abstract.html'') = Inl (Transport ''ConnectionError'')"
    by (simp add: env_ok_def archive_def SITE_def BASE_URL_def)
  have a: "fetch_metadata env_ok (SITE @ ''/b-Abstract.html'') initial_state =
          (Inr (Some \<lparr>title = ''No Title'',
                 authors = join '', '' (extract_authors (soup_of (page [''/b.zip''] None []))),
                 url = SITE @ ''/b-Abstract.html'', pdf_path = None\<rparr>),
           initial_state\<lparr>requests := requests initial_state @ [SITE @ ''/b-Abstract.html'']\<rparr>)"
    using missing_title_soft_network_hard
            [of env_ok "SITE @ ''/b-Abstract.html''" initial_state "[]"] h1 h2 hp h3
    by blast
  have b: "fetch_metadata env_ok (SITE @ ''/d-Abstract.html'') initial_state =
          (Inr None,
           initial_state\<lparr>requests := requests initial_state @ [SITE @ ''/d-Abstract.html''],
                   logging := logging initial_state @
                     [(ERROR, ErrorFetchingMetadata (SITE @ ''/d-Abstract.html'')
                                (Transport ''ConnectionError''))]\<rparr>)
      \<and> submit_all env_ok [SITE @ ''/d-Abstract.html''] initial_state =
          submit_all env_ok []
            (initial_state\<lparr>requests := requests initial_state @ [SITE @ ''/d-Abstract.html''],
               logging := logging initial_state @
                     [(ERROR, ErrorFetchingMetadata (SITE @ ''/d-Abstract.html'')
                                (Transport ''ConnectionError''))]\<rparr>)"
    using missing_title_soft_network_hard
            [of env_ok "SITE @ ''/d-Abstract.html''" initial_state "[]"] h5
    by blast
  show ?thesis
    using h1 h2 hp h3 h5
    by (simp add: a b h4 del: submit_all.simps) (simp add: initial_state_def)
qed

text \<open>
  C7. \<^verbatim>\<open>fetch_metadata\<close> on a page that has an \<^verbatim>\<open>h4\<close> but no paragraph right after an
  \<^verbatim>\<open>h4\<close> returns metadata: the title is the stripped text of the \<^verbatim>\<open>h4\<close>, the list of
  authors is empty, and so is the joined string stored under \<^verbatim>\<open>authors\<close>.
\<close>

theorem no_author_paragraph_gives_empty_authors:
  assumes "http e paper_url = Inr r"
    and "status_code r < 400 \<or> 600 \<le> status_code r"
    and "parse_error r = None"
    and "h4_text (soup_of r) = Some t"
    and "h4_p_anchors (soup_of r) = []"
  shows "extract_authors (soup_of r) = []
       \<and> fetch_metadata e paper_url s =
           (Inr (Some \<lparr>title = strip t, authors = [], url = paper_url, pdf_path = None\<rparr>),
            s\<lparr>requests := requests s @ [paper_url]\<rparr>)"
  using assms
  by (simp add: fetch_metadata_ok extract_title_def extract_authors_def)

theorem no_author_paragraph_gives_empty_authors_witness:
  "http env_ok (SITE @ ''/c-Abstract.html'') = Inr (page [''/c.pdf''] (Some ''Paper C'') [])
 \<and> status_code (page [''/c.pdf''] (Some ''Paper C'') []) < 400
 \<and> parse_error (page [''/c.pdf''] (Some ''Paper C'') []) = None
 \<and> h4_text (soup_of (page [''/c.pdf''] (Some ''Paper C'') [])) = Some ''Paper C''
 \<and> h4_p_anchors (soup_of (page [''/c.pdf''] (Some ''Paper C'') [])) = []
 \<and> fst (fetch_metadata env_ok (SITE @ ''/c-Abstract.html'') initial_state) =
      Inr (Some \<lparr>title = ''Paper C'', authors = [], url = SITE @ ''/c-Abstract.html'',
                 pdf_path = None\<rparr>)"
proof -
  have h1: "http env_ok (SITE @ ''/c-Abstract.html'')
              = Inr (page [''/c.pdf''] (Some ''Paper C'') [])"
    by (simp add: env_ok_def archive_def SITE_def BASE_URL_def)
  have h2: "status_code (page [''/c.pdf''] (Some ''Paper C'') []) < 400
          \<or> 600 \<le> status_code (page [''/c.pdf''] (Some ''Paper C'') [])"
    and hp: "parse_error (page [''/c.pdf''] (Some ''Paper C'') []) = None"
    and h3: "h4_text (soup_of (page [''/c.pdf''] (Some ''Paper C'') [])) = Some ''Paper C''"
    and h4: "h4_p_anchors (soup_of (page [''/c.pdf''] (Some ''Paper C'') [])) = []"
    by (simp_all add: page_def)
  have s: "strip ''Paper C'' = ''Paper C''"
    by code_simp
  show ?thesis
    using no_author_paragraph_gives_empty_authors [OF h1 h2 hp h3 h4, of initial_state]
          h1 hp h3 h4
    by (simp add: s) (simp add: page_def)
qed

text \<open>
  C8. A batch never rewrites the metadata file: the lines it had are a prefix of the
  lines it has afterwards (the header is written only into an empty or absent file).
  The data rows \<open>N\<close> that a batch adds are one for every download it completed (their
  number is \<open>downloaded_papers\<close> at its end), and they depend on the year range and
  on the archive only: a second batch over the same range and the same archive adds the
  same rows \<open>N\<close> again, without regard to the rows already there, so the number of rows
  for the range doubles.
\<close>

theorem rerun_appends_without_rewriting:
  "prefix (sink_lines s) (sink_lines (snd (start_scraping e start_year end_year s)))
 \<and> (\<exists>N. data_rows (snd (start_scraping e start_year end_year s)) = data_rows s @ N
       \<and> data_rows (snd (start_scraping e start_year end_year
                          (snd (start_scraping e start_year end_year s))))
           = data_rows s @ N @ N
       \<and> length (data_rows (snd (start_scraping e start_year end_year
                          (snd (start_scraping e start_year end_year s)))))
           = length (data_rows s) + 2 * length N
       \<and> downloaded_papers (snd (start_scraping e start_year end_year s)) = int (length N))"
proof -
  let ?run = "\<lambda>s. snd (start_scraping e start_year end_year s)"
  have fin: ?thesis
    if "prefix (sink_lines s) (sink_lines (?run s))"
      and "data_rows (?run s) = data_rows s @ X"
      and "data_rows (?run (?run s)) = data_rows s @ X @ X"
      and "downloaded_papers (?run s) = int (length X)" for X
    using that by (intro conjI exI [where x = X]) simp_all
  consider
      (rejected) "start_year < 1987 \<or> end_year > 2025 \<or> start_year > end_year"
    | (init_fails) oe where "\<not> (start_year < 1987 \<or> end_year > 2025 \<or> start_year > end_year)"
        "sink s = None" "open_fails e METADATA_FILE = Some oe"
    | (started) "\<not> (start_year < 1987 \<or> end_year > 2025 \<or> start_year > end_year)"
        "sink s \<noteq> None \<or> open_fails e METADATA_FILE = None"
    by (cases "open_fails e METADATA_FILE") auto
  then show ?thesis
  proof cases
    case rejected
    have "sink_lines (?run t) = sink_lines t" for t
      by (simp add: start_scraping_rejected [OF rejected] sink_lines_def)
    moreover have "downloaded_papers (?run s) = 0"
      by (simp add: start_scraping_rejected [OF rejected])
    ultimately show ?thesis
      by (intro fin [where X = "[]"]) (simp_all add: data_rows_def)
  next
    case init_fails
    have r: "?run s = s\<lparr>downloaded_papers := 0\<rparr>"
      by (simp add: start_scraping_init_fails [OF init_fails])
    have "?run (?run s) = s\<lparr>downloaded_papers := 0\<rparr>"
      using start_scraping_init_fails [OF init_fails(1) _ init_fails(3),
               of "s\<lparr>downloaded_papers := 0\<rparr>"] init_fails(2)
      by (simp add: r)
    with r show ?thesis
      by (intro fin [where X = "[]"]) (simp_all add: data_rows_def sink_lines_def)
  next
    case started
    obtain c X where a: "appends_rows (scrape_papers e start_year end_year) c X"
      using scrape_papers_appends by blast
    define L where "L = (case sink s of None \<Rightarrow> [Header] | Some ls \<Rightarrow> ls)"
    have l1: "sink_lines (?run s) = L @ (if L = [] \<and> X \<noteq> [] then [Header] else []) @ X"
      by (simp add: start_scraping_started [OF started] appends_rowsD(2) [OF a] L_def)
         (simp add: sink_lines_def)
    have k1: "sink (?run s) \<noteq> None"
      by (simp add: start_scraping_started [OF started] appends_rowsD(3) [OF a])
    then have l2: "sink_lines (?run (?run s)) =
        sink_lines (?run s) @ (if sink_lines (?run s) = [] \<and> X \<noteq> [] then [Header] else []) @ X"
      using start_scraping_started [OF started(1), of "?run s" e]
      by (simp add: appends_rowsD(2) [OF a]) (auto simp add: sink_lines_def)
    have p: "prefix (sink_lines s) L"
      by (simp add: L_def sink_lines_def split: option.splits)
    have dL: "filter (\<lambda>l. l \<noteq> Header) L = data_rows s"
      by (simp add: L_def data_rows_def sink_lines_def split: option.splits)
    have d1: "data_rows (?run s) = data_rows s @ X"
      using data_rows_extend [OF appends_rowsD(4) [OF a] l1] by (simp add: dL)
    have d2: "data_rows (?run (?run s)) = data_rows s @ X @ X"
      using data_rows_extend [OF appends_rowsD(4) [OF a] l2] d1
      by (simp add: data_rows_def)
    have n: "downloaded_papers (?run s) = int (length X)"
      by (simp add: start_scraping_started [OF started] appends_rowsD(5) [OF a])
    from p have "prefix (sink_lines s) (sink_lines (?run s))"
      by (simp add: l1 prefix_def) auto
    then show ?thesis
      using d1 d2 n by (rule fin)
  qed
qed

theorem rerun_appends_without_rewriting_witness:
  "data_rows initial_state = []
 \<and> data_rows (snd (start_scraping env_ok 2023 2023 initial_state)) =
      [Row ''Paper A'' ''Ann, Bob'' ''https://papers.nips.cc/a-Abstract.html''
           ''D:/scraped-pdfs/a.pdf'']
 \<and> downloaded_papers (snd (start_scraping env_ok 2023 2023 initial_state)) = 1
 \<and> data_rows (snd (start_scraping env_ok 2023 2023
                      (snd (start_scraping env_ok 2023 2023 initial_state)))) =
      [Row ''Paper A'' ''Ann, Bob'' ''https://papers.nips.cc/a-Abstract.html''
           ''D:/scraped-pdfs/a.pdf'',
       Row ''Paper A'' ''Ann, Bob'' ''https://papers.nips.cc/a-Abstract.html''
           ''D:/scraped-pdfs/a.pdf'']"
proof -
  let ?l = "page [''/a-Abstract.html''] None []"
  let ?r = "page [''/index.html'', ''/a.pdf''] (Some '' Paper A '') [['' Ann '', ''Bob'']]"
  let ?a = "(page [] None [])\<lparr>status_code := 404, content := ''Not Found''\<rparr>"
  let ?row = "Row ''Paper A'' ''Ann, Bob'' ''https://papers.nips.cc/a-Abstract.html''
                  ''D:/scraped-pdfs/a.pdf''"
  have u: "listing_url 2023 = BASE_URL @ ''/2023''"
    by code_simp
  have l1: "http env_ok (listing_url 2023) = Inr ?l"
    by (simp add: u env_ok_def archive_def SITE_def BASE_URL_def)
  have l2: "status_code ?l < 400 \<or> 600 \<le> status_code ?l"
    and lp: "parse_error ?l = None"
    by (simp_all add: page_def)
  have l3: "filter (sublist ''-Abstract.html'') (anchor_hrefs (soup_of ?l)) = [''/a-Abstract.html'']"
    by code_simp
  have h1: "http env_ok (SITE @ ''/a-Abstract.html'') = Inr ?r"
    by (simp add: env_ok_def archive_def SITE_def BASE_URL_def)
  have h2: "status_code ?r < 400 \<or> 600 \<le> status_code ?r"
    and hp: "parse_error ?r = None"
    by (simp_all add: page_def)
  have h3: "find (suffix ''.pdf'') (anchor_hrefs (soup_of ?r)) = Some ''/a.pdf''"
    by code_simp
  have h4: "http env_ok (SITE @ ''/a.pdf'') = Inr ?a"
    by (simp add: env_ok_def archive_def SITE_def BASE_URL_def)
  have h5: "stream_error ?a = None"
    by (simp add: page_def)
  have p: "''D:/scraped-pdfs/a.pdf'' = path_join OUTPUT_DIR (last_segment (SITE @ ''/a.pdf''))"
    by code_simp
  have w1: "open_fails env_ok ''D:/scraped-pdfs/a.pdf'' = None"
    and w2: "open_fails env_ok METADATA_FILE = None"
    by (simp_all add: env_ok_def)
  have t: "extract_title (soup_of ?r) = ''Paper A''"
    and au: "join '', '' (extract_authors (soup_of ?r)) = ''Ann, Bob''"
    by code_simp+
  have v: "\<not> ((2023 :: int) < 1987 \<or> (2023 :: int) > 2025 \<or> (2023 :: int) > 2023)"
    by simp
  have o: "sink initial_state \<noteq> None \<or> open_fails env_ok METADATA_FILE = None"
    using w2 by simp
  have s: "sink (snd (start_scraping env_ok 2023 2023 initial_state)) = Some [Header, ?row]"
    by (simp add: start_scraping_started [OF v o] scrape_papers_def
          get_paper_links_ok [OF l1 l2 lp] l3 fetch_metadata_ok [OF h1 h2 hp]
          download_pdf_saved [OF h1 h2 hp h3 h4 h5 p w1 w2] sink_lines_def)
       (simp add: initial_state_def t au SITE_def)
  have e: "data_rows initial_state = []"
    by (simp add: data_rows_def sink_lines_def initial_state_def)
  have r1: "data_rows (snd (start_scraping env_ok 2023 2023 initial_state)) = [?row]"
    by (simp add: data_rows_def sink_lines_def s)
  obtain N where
    n1: "data_rows (snd (start_scraping env_ok 2023 2023 initial_state))
           = data_rows initial_state @ N"
    and n2: "data_rows (snd (start_scraping env_ok 2023 2023
                              (snd (start_scraping env_ok 2023 2023 initial_state))))
           = data_rows initial_state @ N @ N"
    and n3: "downloaded_papers (snd (start_scraping env_ok 2023 2023 initial_state))
           = int (length N)"
    using rerun_appends_without_rewriting [of initial_state env_ok 2023 2023] by blast
  from n1 have "N = [?row]"
    by (simp add: e r1)
  with n2 n3 show ?thesis
    by (simp add: e r1)
qed

text \<open>
  C9, as stated, fails: \<^verbatim>\<open>start_scraping\<close> clears the log widget, but nothing empties
  the log queue. After a first batch over 2022, whose only paper has no PDF link (so that
  \<^verbatim>\<open>update_progress\<close> was never scheduled), the queue holds one line, and it still
  holds it when the thread of the second batch starts.
\<close>

theorem log_queue_not_reset_counterexample:
  "ui_updates leftover_state = 0
 \<and> log_queue leftover_state = [NoPdfFound ''https://papers.nips.cc/b-Abstract.html'']
 \<and> fst (start_scraping_main env_ok 2022 2022 leftover_state) = Started
 \<and> log_queue (snd (start_scraping_main env_ok 2022 2022 leftover_state)) \<noteq> []"
  by code_simp

text \<open>
  C9, amended. For a valid year range (and a metadata file that exists or can be
  created), the handler starts the thread of \<^verbatim>\<open>scrape_papers\<close> from a state with
  \<open>total_papers = 0\<close> and \<open>downloaded_papers = 0\<close>; the log queue is what it was.
\<close>

theorem batch_start_resets_counters_only:
  assumes "1987 \<le> start_year \<and> start_year \<le> end_year \<and> end_year \<le> 2025"
    and "sink s \<noteq> None \<or> open_fails e METADATA_FILE = None"
  shows "fst (start_scraping_main e start_year end_year s) = Started
       \<and> total_papers (snd (start_scraping_main e start_year end_year s)) = 0
       \<and> downloaded_papers (snd (start_scraping_main e start_year end_year s)) = 0
       \<and> log_queue (snd (start_scraping_main e start_year end_year s)) = log_queue s
       \<and> start_scraping e start_year end_year s =
           (case scrape_papers e start_year end_year
                   (snd (start_scraping_main e start_year end_year s)) of
              (Some x, s2) \<Rightarrow> (Raised x, s2)
            | (None, s2) \<Rightarrow> (Finished, s2))"
proof -
  from assms(1) have v: "\<not> (start_year < 1987 \<or> end_year > 2025 \<or> start_year > end_year)"
    by arith
  show ?thesis
    by (simp add: start_scraping_main_started [OF v assms(2)] start_scraping_def)
qed

theorem batch_start_resets_counters_only_witness:
  "(1987 \<le> (2022 :: int) \<and> (2022 :: int) \<le> 2022 \<and> (2022 :: int) \<le> 2025)
 \<and> open_fails env_ok METADATA_FILE = None
 \<and> fst (start_scraping_main env_ok 2022 2022 leftover_state) = Started
 \<and> total_papers (snd (start_scraping_main env_ok 2022 2022 leftover_state)) = 0
 \<and> downloaded_papers (snd (start_scraping_main env_ok 2022 2022 leftover_state)) = 0
 \<and> log_queue (snd (start_scraping_main env_ok 2022 2022 leftover_state))
      = log_queue leftover_state"
proof -
  have h1: "1987 \<le> (2022 :: int) \<and> (2022 :: int) \<le> 2022 \<and> (2022 :: int) \<le> 2025"
    by simp
  have h2: "open_fails env_ok METADATA_FILE = None"
    by (simp add: env_ok_def)
  then have h3: "sink leftover_state \<noteq> None \<or> open_fails env_ok METADATA_FILE = None"
    by simp
  show ?thesis
    using batch_start_resets_counters_only [OF h1 h3] h2 by simp
qed

text \<open>
  C10. \<^verbatim>\<open>download_pdf\<close> does not look at the status of the answer to the asset
  request. Whenever that request returns a response whose stream ends without error, and
  the two files can be opened, the body is written to the file named after the last
  segment of the asset address, a row is appended to the metadata file and
  \<open>downloaded_papers\<close> is advanced by one. The status of the asset response is not
  among the hypotheses and the resulting state does not mention it: an error page is
  saved, recorded and counted as a PDF would be.
\<close>

theorem asset_status_is_not_checked:
  assumes page: "http e paper_url = Inr r"
    and ok: "status_code r < 400 \<or> 600 \<le> status_code r"
    and parsed: "parse_error r = None"
    and link: "find (suffix ''.pdf'') (anchor_hrefs (soup_of r)) = Some href"
    and asset: "http e (SITE @ href) = Inr a"
    and whole: "stream_error a = None"
    and path: "path = path_join OUTPUT_DIR (last_segment (SITE @ href))"
    and w1: "open_fails e path = None"
    and w2: "open_fails e METADATA_FILE = None"
  shows "download_pdf e paper_url m s =
      (None, s\<lparr>requests := requests s @ [paper_url, SITE @ href],
               files := (files s)(path \<mapsto> content a),
               log_queue := log_queue s @ [Downloading (last_segment (SITE @ href)), Saved path,
                    DownloadedCount (downloaded_papers s + 1) (total_papers s)],
               sink := Some (sink_lines s @ (if sink_lines s = [] then [Header] else [])
                               @ [Row (title m) (authors m) (url m) path]),
               downloaded_papers := downloaded_papers s + 1,
               ui_updates := ui_updates s + 1\<rparr>)"
proof -
  have fetched: "get_checked e paper_url s = (Inr r, s\<lparr>requests := requests s @ [paper_url]\<rparr>)"
    using page ok by (rule get_checked_ok)
  have streamed: "stream_to_file e (SITE @ href) path t =
      (Inr (), t\<lparr>requests := requests t @ [SITE @ href],
                 files := (files t)(path \<mapsto> content a)\<rparr>)" for t
    using asset whole w1 by (rule stream_to_file_whole)
  have recorded: "record_download e path m t =
      (None, t\<lparr>log_queue := log_queue t @ [Saved path,
                    DownloadedCount (downloaded_papers t + 1) (total_papers t)],
               sink := Some (sink_lines t @ (if sink_lines t = [] then [Header] else [])
                               @ [Row (title m) (authors m) (url m) path]),
               downloaded_papers := downloaded_papers t + 1,
               ui_updates := ui_updates t + 1\<rparr>)" for t
    using w2 by (rule record_download_ok)
  show ?thesis
    by (simp add: download_pdf_def fetched BeautifulSoup_ok [OF parsed] link Let_def
          path [symmetric] streamed recorded log_put_def sink_lines_def)
qed

theorem asset_status_is_not_checked_witness:
  "http env_ok (SITE @ ''/a.pdf'')
     = Inr ((page [] None [])\<lparr>status_code := 404, content := ''Not Found''\<rparr>)
 \<and> open_fails env_ok ''D:/scraped-pdfs/a.pdf'' = None
 \<and> open_fails env_ok METADATA_FILE = None
 \<and> fst (download_pdf env_ok (SITE @ ''/a-Abstract.html'') metadata_a initial_state) = None
 \<and> files (snd (download_pdf env_ok (SITE @ ''/a-Abstract.html'') metadata_a initial_state))
      ''D:/scraped-pdfs/a.pdf'' = Some ''Not Found''
 \<and> sink (snd (download_pdf env_ok (SITE @ ''/a-Abstract.html'') metadata_a initial_state))
      = Some [Header, Row ''Paper A'' ''Ann, Bob'' ''https://papers.nips.cc/a-Abstract.html''
                          ''D:/scraped-pdfs/a.pdf'']
 \<and> downloaded_papers
      (snd (download_pdf env_ok (SITE @ ''/a-Abstract.html'') metadata_a initial_state)) = 1"
proof -
  let ?r = "page [''/index.html'', ''/a.pdf''] (Some '' Paper A '') [['' Ann '', ''Bob'']]"
  let ?a = "(page [] None [])\<lparr>status_code := 404, content := ''Not Found''\<rparr>"
  have h1: "http env_ok (SITE @ ''/a-Abstract.html'') = Inr ?r"
    by (simp add: env_ok_def archive_def SITE_def BASE_URL_def)
  have h2: "status_code ?r < 400 \<or> 600 \<le> status_code ?r"
    and hp: "parse_error ?r = None"
    by (simp_all add: page_def)
  have h3: "find (suffix ''.pdf'') (anchor_hrefs (soup_of ?r)) = Some ''/a.pdf''"
    by code_simp
  have h4: "http env_ok (SITE @ ''/a.pdf'') = Inr ?a"
    by (simp add: env_ok_def archive_def SITE_def BASE_URL_def)
  have h5: "stream_error ?a = None"
    by (simp add: page_def)
  have p: "''D:/scraped-pdfs/a.pdf'' = path_join OUTPUT_DIR (last_segment (SITE @ ''/a.pdf''))"
    by code_simp
  have w1: "open_fails env_ok ''D:/scraped-pdfs/a.pdf'' = None"
    and w2: "open_fails env_ok METADATA_FILE = None"
    by (simp_all add: env_ok_def)
  show ?thesis
    using asset_status_is_not_checked [OF h1 h2 hp h3 h4 h5 p w1 w2, of metadata_a initial_state]
          h4 w1 w2
    by (simp add: metadata_a_def) (simp add: initial_state_def sink_lines_def page_def)
qed

end
